theory Spec2Isabelle
  imports Complex_Main "HOL-Library.Word" "HOL-Library.Sublist"
begin

section \<open>Strings of the program\<close>

text \<open>
  A TypeScript string is a sequence of UTF-16 code units. \<open>String.prototype.trim\<close> and
  the regular expressions of \<^verbatim>\<open>generator.ts\<close> (none carries the \<^verbatim>\<open>u\<close> flag) work on
  code units, so a string is modelled as a list of 16-bit words. ASCII literals are
  written through \<open>js\<close>.
\<close>

type_synonym jschar = "16 word"
type_synonym jsstring = "jschar list"

definition js :: "string \<Rightarrow> jsstring" where
  "js s = map (\<lambda>c. of_nat (of_char c)) s"

definition lbrace :: jschar where "lbrace = 0x7B"
definition rbrace :: jschar where "rbrace = 0x7D"
definition lbracket :: jschar where "lbracket = 0x5B"
definition rbracket :: jschar where "rbracket = 0x5D"

text \<open>
  The characters removed by \<open>trim\<close> and matched by \<^verbatim>\<open>\s\<close>: ECMAScript's WhiteSpace
  (TAB, VT, FF, SP, NBSP, ZWNBSP and the category Zs) and LineTerminator (LF, CR, LS, PS).
\<close>

definition isWhiteSpace :: "jschar \<Rightarrow> bool" where
  "isWhiteSpace c \<longleftrightarrow>
     c = 0x09 \<or> c = 0x0A \<or> c = 0x0B \<or> c = 0x0C \<or> c = 0x0D \<or> c = 0x20 \<or>
     c = 0xA0 \<or> c = 0x1680 \<or> (0x2000 \<le> c \<and> c \<le> 0x200A) \<or>
     c = 0x2028 \<or> c = 0x2029 \<or> c = 0x202F \<or> c = 0x205F \<or> c = 0x3000 \<or>
     c = 0xFEFF"

text \<open>The character classes of the patterns: \<^verbatim>\<open>[a-zA-Z]\<close>, \<^verbatim>\<open>[a-z]\<close>, \<^verbatim>\<open>[{[\]]\<close>, \<^verbatim>\<open>[{[]\<close>.\<close>

definition isLower :: "jschar \<Rightarrow> bool" where
  "isLower c \<longleftrightarrow> 0x61 \<le> c \<and> c \<le> 0x7A"

definition isUpper :: "jschar \<Rightarrow> bool" where
  "isUpper c \<longleftrightarrow> 0x41 \<le> c \<and> c \<le> 0x5A"

definition isLetter :: "jschar \<Rightarrow> bool" where
  "isLetter c \<longleftrightarrow> isLower c \<or> isUpper c"

definition isBracketChar :: "jschar \<Rightarrow> bool" where
  "isBracketChar c \<longleftrightarrow> c = lbrace \<or> c = lbracket \<or> c = rbracket"

definition isOpenChar :: "jschar \<Rightarrow> bool" where
  "isOpenChar c \<longleftrightarrow> c = lbrace \<or> c = lbracket"

text \<open>\<open>text.trim()\<close>: white space is removed at both ends.\<close>

definition trim :: "jsstring \<Rightarrow> jsstring" where
  "trim s = rev (dropWhile isWhiteSpace (rev (dropWhile isWhiteSpace s)))"

text \<open>
  Every pattern of \<open>isTruncated\<close> is a sequence of character classes, an optional
  \<^verbatim>\<open>\s*\<close>, and \<^verbatim>\<open>$\<close> (end of input, the \<^verbatim>\<open>m\<close> flag being absent).
  \<open>match_here\<close> matches such a pattern at the start of a string; \<open>regex_test\<close> is
  \<open>RegExp.prototype.test\<close>, which tries every start position from left to right.
\<close>

fun match_here :: "(jschar \<Rightarrow> bool) list \<Rightarrow> bool \<Rightarrow> jsstring \<Rightarrow> bool" where
  "match_here [] ws s = (if ws then list_all isWhiteSpace s else s = [])"
| "match_here (c # cs) ws [] = False"
| "match_here (c # cs) ws (x # xs) = (c x \<and> match_here cs ws xs)"

fun regex_test :: "(jschar \<Rightarrow> bool) list \<Rightarrow> bool \<Rightarrow> jsstring \<Rightarrow> bool" where
  "regex_test p ws [] = match_here p ws []"
| "regex_test p ws (x # xs) = (match_here p ws (x # xs) \<or> regex_test p ws xs)"

text \<open>\<open>(trimmed.match(/c/g) || []).length\<close>: the number of occurrences of one character.\<close>

definition count_char :: "jschar \<Rightarrow> jsstring \<Rightarrow> nat" where
  "count_char c s = length (filter (\<lambda>x. x = c) s)"

text \<open>\<open>trimmed.endsWith(c)\<close> for a one-character string \<open>c\<close>.\<close>

definition endsWith :: "jsstring \<Rightarrow> jschar \<Rightarrow> bool" where
  "endsWith s c = (case rev s of [] \<Rightarrow> False | x # _ \<Rightarrow> x = c)"

section \<open>The truncation detector\<close>

definition isTruncated :: "jsstring \<Rightarrow> bool" where
  "isTruncated text =
     (if text = [] \<or> length (trim text) = 0 then False
      else let trimmed = trim text in
        if regex_test [isLetter, isBracketChar] False trimmed then True
        else if regex_test [isLower, isBracketChar] False trimmed then True
        else let openBraces = count_char lbrace trimmed;
                 closeBraces = count_char rbrace trimmed;
                 openBrackets = count_char lbracket trimmed;
                 closeBrackets = count_char rbracket trimmed in
          if (openBraces > closeBraces \<or> openBrackets > closeBrackets) \<and>
             (endsWith trimmed lbrace \<or> endsWith trimmed lbracket \<or>
              regex_test [isOpenChar] True trimmed) then True
          else if regex_test [isLetter, isBracketChar] True trimmed then True
          else False)"

section \<open>Parsed values and the recursive truncation check\<close>

text \<open>
  What \<open>grammar.parse\<close> and \<open>parseJSON\<close> return is a JSON value. A number is a finite
  double, hence a rational; an object is the list of its entries in the order of
  \<open>Object.entries\<close>.
\<close>

datatype json =
    JNull
  | JBool bool
  | JNum rat
  | JStr jsstring
  | JArr "json list"
  | JObj "(jsstring \<times> json) list"

text \<open>The decimal digits of an array index, as the template literal prints it.\<close>

fun show_nat :: "nat \<Rightarrow> jsstring" where
  "show_nat n =
     (if n < 10 then [of_nat (48 + n)]
      else show_nat (n div 10) @ [of_nat (48 + n mod 10)])"

declare show_nat.simps [simp del]

definition dquote :: jschar where "dquote = 0x22"

text \<open>
  The message of the error thrown at a truncated string:
  \<^verbatim>\<open>Truncated text detected at ${path}: "${data.substring(0, 50)}..."\<close>.
\<close>

definition truncationMessage :: "jsstring \<Rightarrow> jsstring \<Rightarrow> jsstring" where
  "truncationMessage path data =
     js ''Truncated text detected at '' @ path @ js '': '' @ [dquote] @ take 50 data @
     js ''...'' @ [dquote]"

text \<open>
  \<open>validateNoTruncation\<close> returns nothing or throws; the model returns \<open>Inr ()\<close> or
  \<open>Inl\<close> of the thrown error's message. The two \<open>forEach\<close> loops stop at the first
  element whose check throws.
\<close>

function validateNoTruncation :: "json \<Rightarrow> jsstring \<Rightarrow> jsstring + unit"
  and forEachItem :: "json list \<Rightarrow> nat \<Rightarrow> jsstring \<Rightarrow> jsstring + unit"
  and forEachEntry :: "(jsstring \<times> json) list \<Rightarrow> jsstring \<Rightarrow> jsstring + unit"
where
  "validateNoTruncation (JStr data) path =
     (if isTruncated data then Inl (truncationMessage path data) else Inr ())"
| "validateNoTruncation (JArr items) path = forEachItem items 0 path"
| "validateNoTruncation (JObj entries) path = forEachEntry entries path"
| "validateNoTruncation JNull path = Inr ()"
| "validateNoTruncation (JBool b) path = Inr ()"
| "validateNoTruncation (JNum x) path = Inr ()"
| "forEachItem [] index path = Inr ()"
| "forEachItem (item # items) index path =
     (case validateNoTruncation item (path @ js ''['' @ show_nat index @ js '']'') of
        Inl e \<Rightarrow> Inl e
      | Inr _ \<Rightarrow> forEachItem items (index + 1) path)"
| "forEachEntry [] path = Inr ()"
| "forEachEntry ((key, value) # entries) path =
     (case validateNoTruncation value (path @ js ''.'' @ key) of
        Inl e \<Rightarrow> Inl e
      | Inr _ \<Rightarrow> forEachEntry entries path)"
  by pat_completeness auto
termination
  by (relation "measure (\<lambda>x. case x of
         Inl (d, p) \<Rightarrow> 2 * size d
       | Inr (Inl (xs, i, p)) \<Rightarrow> 2 * size_list size xs + 1
       | Inr (Inr (es, p)) \<Rightarrow> 2 * size_list (size_prod (\<lambda>k. 0) size) es + 1)")
    auto

text \<open>
  The string-valued leaves of a value with their paths, in the order of the traversal:
  the reference against which the check is compared.
\<close>

function leaves :: "json \<Rightarrow> jsstring \<Rightarrow> (jsstring \<times> jsstring) list"
  and itemLeaves :: "json list \<Rightarrow> nat \<Rightarrow> jsstring \<Rightarrow> (jsstring \<times> jsstring) list"
  and entryLeaves :: "(jsstring \<times> json) list \<Rightarrow> jsstring \<Rightarrow> (jsstring \<times> jsstring) list"
where
  "leaves (JStr data) path = [(path, data)]"
| "leaves (JArr items) path = itemLeaves items 0 path"
| "leaves (JObj entries) path = entryLeaves entries path"
| "leaves JNull path = []"
| "leaves (JBool b) path = []"
| "leaves (JNum x) path = []"
| "itemLeaves [] index path = []"
| "itemLeaves (item # items) index path =
     leaves item (path @ js ''['' @ show_nat index @ js '']'') @
     itemLeaves items (index + 1) path"
| "entryLeaves [] path = []"
| "entryLeaves ((key, value) # entries) path =
     leaves value (path @ js ''.'' @ key) @ entryLeaves entries path"
  by pat_completeness auto
termination
  by (relation "measure (\<lambda>x. case x of
         Inl (d, p) \<Rightarrow> 2 * size d
       | Inr (Inl (xs, i, p)) \<Rightarrow> 2 * size_list size xs + 1
       | Inr (Inr (es, p)) \<Rightarrow> 2 * size_list (size_prod (\<lambda>k. 0) size) es + 1)")
    auto

section \<open>The constrained generator\<close>

text \<open>
  A thrown value is an instance of \<open>Error\<close> with its message, or any other value, kept
  as the string \<open>String(error)\<close>.
\<close>

datatype exn = Error jsstring | Thrown jsstring

fun instanceofError :: "exn \<Rightarrow> bool" where
  "instanceofError (Error m) = True"
| "instanceofError (Thrown s) = False"

text \<open>\<open>error instanceof Error ? error.message : String(error)\<close>\<close>

fun errorMessage :: "exn \<Rightarrow> jsstring" where
  "errorMessage (Error m) = m"
| "errorMessage (Thrown s) = s"

datatype analysis_type = Intent | Tone | Impact | Alternatives

text \<open>The two system prompt literals of \<open>generateWithSchema\<close>, by name.\<close>

datatype system_prompt = DefaultSystemPrompt | AlternativesSystemPrompt

text \<open>
  What the generator does to the outside, in order: the calls of the logger, of the model
  (\<open>session.prompt\<close>), of \<open>grammar.parse\<close> and of \<open>parseJSON\<close>. Console output is left out.
\<close>

datatype event =
    LogRequest jsstring
  | LogResponse jsstring
  | LogError jsstring "nat option"
  | ModelCall system_prompt jsstring
  | GrammarParse jsstring
  | ManualParse jsstring

fun isModelCall :: "event \<Rightarrow> bool" where
  "isModelCall (ModelCall sp p) = True"
| "isModelCall _ = False"

fun isManualParse :: "event \<Rightarrow> bool" where
  "isManualParse (ManualParse r) = True"
| "isManualParse _ = False"

definition modelCalls :: "event list \<Rightarrow> nat" where
  "modelCalls tr = length (filter isModelCall tr)"

text \<open>
  The collaborators of the generator, none of which is in \<^verbatim>\<open>generator.ts\<close>:
  \<^item> \<open>llm n sp p\<close> is the outcome of the model call number \<open>n\<close> (counted from 0) with system
    prompt \<open>sp\<close> and prompt \<open>p\<close>, under the grammar and the sampling options: the response
    text or a thrown value. The model may answer the same prompt differently each time;
  \<^item> \<open>grammarParse\<close> is \<open>grammar.parse\<close> of node-llama-cpp: the parsed value, or the message
    of the \<open>Error\<close> it throws;
  \<^item> \<open>validator\<close> is the Ajv validate function, \<open>formatValidationErrors\<close> the text made of
    the errors it left for the value;
  \<^item> \<open>parseJSON\<close> is the lenient parser of \<^verbatim>\<open>validation.ts\<close>.
\<close>

record env =
  llm :: "nat \<Rightarrow> system_prompt \<Rightarrow> jsstring \<Rightarrow> exn + jsstring"
  grammarParse :: "jsstring \<Rightarrow> jsstring + json"
  validator :: "json \<Rightarrow> bool"
  formatValidationErrors :: "json \<Rightarrow> jsstring"
  parseJSON :: "jsstring \<Rightarrow> exn + json"

text \<open>
  Of \<open>GeneratorDependencies\<close> only the logger and the session identifier decide anything;
  the context sequence and size belong to the model call.
\<close>

record dependencies =
  logger :: bool
  sessionId :: "jsstring option"

text \<open>\<open>logger && sessionId && analysisType\<close>: an empty session identifier is falsy.\<close>

definition logging :: "dependencies \<Rightarrow> analysis_type option \<Rightarrow> bool" where
  "logging deps analysisType \<longleftrightarrow>
     logger deps \<and> (case sessionId deps of None \<Rightarrow> False | Some s \<Rightarrow> s \<noteq> []) \<and>
     analysisType \<noteq> None"

text \<open>
  The \<open>catch\<close> block of \<open>generateWithSchema\<close>. \<open>response\<close> is \<open>None\<close> while the variable is
  still undefined; the empty response is falsy. The methods of the logger catch their own
  failures (\<open>writeLog\<close>), so they never throw.
\<close>

definition catchBlock ::
  "env \<Rightarrow> bool \<Rightarrow> jsstring option \<Rightarrow> exn \<Rightarrow> event list \<Rightarrow> (exn + json) \<times> event list" where
  "catchBlock e lg response error tr =
     (let tr1 = tr @ (if lg then [LogError (errorMessage error) None] else []) in
      case response of
        None \<Rightarrow> (Inl error, tr1)
      | Some r \<Rightarrow>
          if instanceofError error \<and> r \<noteq> [] then
            (let tr2 = tr1 @ [ManualParse r] in
             case parseJSON e r of
               Inr manualParsed \<Rightarrow>
                 if validator e manualParsed
                 then (Inr manualParsed, tr2 @ (if lg then [LogResponse r] else []))
                 else (Inl error, tr2)
             | Inl parseError \<Rightarrow> (Inl error, tr2))
          else (Inl error, tr1))"

text \<open>The system prompt is the default one unless \<open>analysisType === 'alternatives'\<close>.\<close>

definition chooseSystemPrompt :: "analysis_type option \<Rightarrow> system_prompt" where
  "chooseSystemPrompt analysisType =
     (if analysisType = Some Alternatives then AlternativesSystemPrompt
      else DefaultSystemPrompt)"

text \<open>
  \<open>generateWithSchema\<close>: the result is the returned value (\<open>Inr\<close>) or the thrown one
  (\<open>Inl\<close>), with the events added to those that happened before. Every \<open>throw\<close> of the
  \<open>try\<close> block lands in the \<open>catch\<close> block of the same function.
\<close>

definition generateWithSchema ::
  "env \<Rightarrow> jsstring \<Rightarrow> dependencies \<Rightarrow> analysis_type option \<Rightarrow> event list \<Rightarrow>
   (exn + json) \<times> event list" where
  "generateWithSchema e prompt deps analysisType tr =
     (let lg = logging deps analysisType;
          tr0 = tr @ (if lg then [LogRequest prompt] else []);
          systemPrompt = chooseSystemPrompt analysisType;
          tr1 = tr0 @ [ModelCall systemPrompt prompt]
      in case llm e (modelCalls tr0) systemPrompt prompt of
           Inl thrown \<Rightarrow> catchBlock e lg None thrown tr1
         | Inr response \<Rightarrow>
             (let tr2 = tr1 @ (if lg \<and> response \<noteq> [] then [LogResponse response] else []);
                  tr3 = tr2 @ [GrammarParse response]
              in case grammarParse e response of
                   Inl m \<Rightarrow> catchBlock e lg (Some response) (Error m) tr3
                 | Inr parsed \<Rightarrow>
                     if \<not> validator e parsed then
                       (let errors = formatValidationErrors e parsed;
                            msg = js ''Validation failed: '' @ errors
                        in catchBlock e lg (Some response) (Error msg)
                             (tr3 @ (if lg then [LogError msg None] else [])))
                     else
                       (case validateNoTruncation parsed (js ''root'') of
                          Inl errorMsg \<Rightarrow>
                            catchBlock e lg (Some response)
                              (Error (js ''Response appears truncated: '' @ errorMsg))
                              (tr3 @ (if lg
                                      then [LogError (js ''Truncation detected: '' @ errorMsg) None]
                                      else []))
                        | Inr _ \<Rightarrow> (Inr parsed, tr3))))"

section \<open>The retry controller\<close>

definition maxAttempts :: nat where
  "maxAttempts = 2"

text \<open>\<open>lastError?.message || 'Unknown error'\<close>, \<open>lastError\<close> being \<open>null\<close> or an \<open>Error\<close>.\<close>

definition retryReason :: "jsstring option \<Rightarrow> jsstring" where
  "retryReason lastError =
     (case lastError of
        None \<Rightarrow> js ''Unknown error''
      | Some m \<Rightarrow> if m = [] then js ''Unknown error'' else m)"

text \<open>The logging of a failed attempt in the \<open>catch\<close> block of the loop.\<close>

definition logAttemptError ::
  "dependencies \<Rightarrow> analysis_type option \<Rightarrow> nat \<Rightarrow> jsstring \<Rightarrow> event list" where
  "logAttemptError deps analysisType attempt m =
     (if logging deps analysisType
      then [LogError (js ''Attempt '' @ show_nat attempt @ js '' failed: '' @ m) (Some attempt)]
      else [])"

text \<open>
  The \<open>for\<close> loop of \<open>generateWithRetry\<close>, from the value of \<open>attempt\<close> on. \<open>lastError\<close> holds
  the message of the \<open>Error\<close> the variable refers to. The prompt builders are taken as total
  functions. The last line is the \<open>throw lastError\<close> after the loop.
\<close>

function retryLoop ::
  "env \<Rightarrow> (jsstring \<Rightarrow> jsstring option \<Rightarrow> jsstring) \<Rightarrow> (jsstring \<Rightarrow> jsstring \<Rightarrow> jsstring) \<Rightarrow>
   jsstring \<Rightarrow> jsstring option \<Rightarrow> dependencies \<Rightarrow> analysis_type option \<Rightarrow>
   nat \<Rightarrow> jsstring option \<Rightarrow> event list \<Rightarrow> (exn + json) \<times> event list" where
  "retryLoop e promptBuilder buildRetryPrompt message context deps analysisType
       attempt lastError tr =
     (if attempt \<le> maxAttempts then
        (let prompt =
               (if attempt = 1 then promptBuilder message context
                else buildRetryPrompt (promptBuilder message context) (retryReason lastError))
         in case generateWithSchema e prompt deps analysisType tr of
              (Inr result, tr') \<Rightarrow> (Inr result, tr')
            | (Inl error, tr') \<Rightarrow>
                (let m = errorMessage error;
                     tr'' = tr' @ logAttemptError deps analysisType attempt m
                 in if attempt = maxAttempts
                    then (Inl (Error (js ''Failed after '' @ show_nat maxAttempts @
                                      js '' attempts: '' @ m)), tr'')
                    else retryLoop e promptBuilder buildRetryPrompt message context deps
                           analysisType (attempt + 1) (Some m) tr''))
      else (Inl (case lastError of Some m \<Rightarrow> Error m | None \<Rightarrow> Thrown (js ''null'')), tr))"
  by pat_completeness auto
termination
  by (relation "measure (\<lambda>(e, pb, brp, msg, ctx, deps, ty, attempt, lastError, tr).
         maxAttempts + 1 - attempt)")
    auto

declare retryLoop.simps [simp del]

definition generateWithRetry ::
  "env \<Rightarrow> (jsstring \<Rightarrow> jsstring option \<Rightarrow> jsstring) \<Rightarrow> (jsstring \<Rightarrow> jsstring \<Rightarrow> jsstring) \<Rightarrow>
   jsstring \<Rightarrow> jsstring option \<Rightarrow> dependencies \<Rightarrow> analysis_type option \<Rightarrow>
   event list \<Rightarrow> (exn + json) \<times> event list" where
  "generateWithRetry e promptBuilder buildRetryPrompt message context deps analysisType tr =
     retryLoop e promptBuilder buildRetryPrompt message context deps analysisType 1 None tr"

text \<open>The prompts of the model calls of a trace, in order.\<close>

fun issuedPrompts :: "event list \<Rightarrow> jsstring list" where
  "issuedPrompts [] = []"
| "issuedPrompts (ModelCall sp p # tr) = p # issuedPrompts tr"
| "issuedPrompts (ev # tr) = issuedPrompts tr"

section \<open>Terms of the specification\<close>

text \<open>
  The specification speaks of a "word character" before the bracket. In the language of
  regular expressions that is the class \<^verbatim>\<open>\w\<close>: letters, digits and the underscore.
\<close>

definition specWordChar :: "jschar \<Rightarrow> bool" where
  "specWordChar c \<longleftrightarrow> isLetter c \<or> (0x30 \<le> c \<and> c \<le> 0x39) \<or> c = 0x5F"

section \<open>Example runs\<close>

text \<open>
  Concrete collaborators for the examples: a validator for a schema with one required
  string field \<open>primary\<close> of minimal length 1, and parsers that know the JSON texts below.
\<close>

definition completeResponse :: jsstring where
  \<open>completeResponse = js ''{"primary":"Request for a document."}''\<close>

definition truncatedResponse :: jsstring where
  \<open>truncatedResponse = js ''{"primary":"The person is express{"}''\<close>

definition emptyFieldResponse :: jsstring where
  \<open>emptyFieldResponse = js ''{"primary":""}''\<close>

definition fencedResponse :: jsstring where
  \<open>fencedResponse = js ''Here is the JSON: {"primary":"Request for a document."}''\<close>

definition completeValue :: json where
  "completeValue = JObj [(js ''primary'', JStr (js ''Request for a document.''))]"

definition truncatedValue :: json where
  "truncatedValue = JObj [(js ''primary'', JStr (js ''The person is express{''))]"

definition emptyFieldValue :: json where
  "emptyFieldValue = JObj [(js ''primary'', JStr [])]"

definition exampleValidator :: "json \<Rightarrow> bool" where
  "exampleValidator v =
     (case v of JObj [(k, JStr s)] \<Rightarrow> k = js ''primary'' \<and> s \<noteq> [] | _ \<Rightarrow> False)"

definition strictParse :: "jsstring \<Rightarrow> jsstring + json" where
  "strictParse r =
     (case map_of [(completeResponse, completeValue), (truncatedResponse, truncatedValue),
                   (emptyFieldResponse, emptyFieldValue)] r of
        Some v \<Rightarrow> Inr v
      | None \<Rightarrow> Inl (js ''Unexpected token in JSON''))"

definition lenientParse :: "jsstring \<Rightarrow> exn + json" where
  "lenientParse r =
     (case map_of [(completeResponse, completeValue), (truncatedResponse, truncatedValue),
                   (emptyFieldResponse, emptyFieldValue), (fencedResponse, completeValue)] r of
        Some v \<Rightarrow> Inr v
      | None \<Rightarrow> Inl (Error (js ''No JSON found in response'')))"

definition exampleEnv :: "(nat \<Rightarrow> exn + jsstring) \<Rightarrow> env" where
  "exampleEnv answers =
     \<lparr> llm = (\<lambda>n sp p. answers n),
       grammarParse = strictParse,
       validator = exampleValidator,
       formatValidationErrors = (\<lambda>v. js ''/primary must NOT have fewer than 1 characters''),
       parseJSON = lenientParse \<rparr>"

definition examplePromptBuilder :: "jsstring \<Rightarrow> jsstring option \<Rightarrow> jsstring" where
  "examplePromptBuilder message context =
     (case context of
        None \<Rightarrow> js ''Analyze the intent of: '' @ message
      | Some c \<Rightarrow> c @ js '' Analyze the intent of: '' @ message)"

definition exampleRetryPrompt :: "jsstring \<Rightarrow> jsstring \<Rightarrow> jsstring" where
  "exampleRetryPrompt original error = original @ js '' Previous attempt failed: '' @ error"

definition exampleDeps :: dependencies where
  "exampleDeps = \<lparr> logger = True, sessionId = Some (js ''s1'') \<rparr>"

definition exampleMessage :: jsstring where
  "exampleMessage = js ''Can you send the document?''"

text \<open>
  What the model answers in the example runs: a complete answer, an answer with a cut-off
  field, an answer wrapped in prose, and two failing answers in a row (an empty field, then
  JSON cut off after the key).
\<close>

definition cutOffResponse :: jsstring where
  \<open>cutOffResponse = js ''{"primary":''\<close>

definition answersComplete :: "nat \<Rightarrow> exn + jsstring" where
  "answersComplete n = Inr completeResponse"

definition answersTruncated :: "nat \<Rightarrow> exn + jsstring" where
  "answersTruncated n = Inr truncatedResponse"

definition answersFenced :: "nat \<Rightarrow> exn + jsstring" where
  "answersFenced n = Inr fencedResponse"

definition answersFailTwice :: "nat \<Rightarrow> exn + jsstring" where
  "answersFailTwice n = (if n = 0 then Inr emptyFieldResponse else Inr cutOffResponse)"

definition answersRetrySucceeds :: "nat \<Rightarrow> exn + jsstring" where
  "answersRetrySucceeds n = (if n = 0 then Inr emptyFieldResponse else Inr completeResponse)"

definition examplePrompt :: jsstring where
  "examplePrompt = examplePromptBuilder exampleMessage None"

text \<open>Two parsed values: one with blank strings only, one with a cut-off string in a nested list.\<close>

definition blankStructure :: json where
  "blankStructure =
     JObj [(js ''primary'', JStr []), (js ''tags'', JArr [JStr [0x20, 0x09, 0x3000], JNum 1])]"


section \<open>Trimming, counting and matching\<close>

lemma trim_all_space: "list_all isWhiteSpace s \<Longrightarrow> trim s = []"
  by (auto simp: trim_def list_all_iff dest: set_dropWhileD)

lemma trim_Nil: "trim [] = []"
  by (simp add: trim_def)

lemma trim_last_nonspace: "trim s \<noteq> [] \<Longrightarrow> \<not> isWhiteSpace (last (trim s))"
proof -
  let ?r = "dropWhile isWhiteSpace (rev (dropWhile isWhiteSpace s))"
  assume "trim s \<noteq> []"
  then have ne: "?r \<noteq> []" by (simp add: trim_def)
  then have "\<not> isWhiteSpace (hd ?r)" by (rule hd_dropWhile)
  moreover have "last (trim s) = hd ?r"
    using ne by (simp add: trim_def last_rev)
  ultimately show ?thesis by simp
qed

lemma filter_dropWhile_other:
  "\<not> P c \<Longrightarrow> filter (\<lambda>x. x = c) (dropWhile P s) = filter (\<lambda>x. x = c) s"
  by (induction s) auto

lemma count_char_rev: "count_char c (rev s) = count_char c s"
  by (simp add: count_char_def flip: rev_filter)

lemma count_char_dropWhile:
  "\<not> P c \<Longrightarrow> count_char c (dropWhile P s) = count_char c s"
  by (simp add: count_char_def filter_dropWhile_other)

lemma count_char_trim:
  "\<not> isWhiteSpace c \<Longrightarrow> count_char c (trim s) = count_char c s"
  by (simp add: trim_def count_char_rev count_char_dropWhile)

lemma bracket_chars_not_space:
  "\<not> isWhiteSpace lbrace" "\<not> isWhiteSpace rbrace"
  "\<not> isWhiteSpace lbracket" "\<not> isWhiteSpace rbracket"
  by (simp_all add: isWhiteSpace_def lbrace_def rbrace_def lbracket_def rbracket_def)

lemma regex_test_here: "match_here p ws s \<Longrightarrow> regex_test p ws s"
  by (cases s) simp_all

lemma regex_test_suffix: "match_here p ws suf \<Longrightarrow> regex_test p ws (pre @ suf)"
  by (induction pre) (simp_all add: regex_test_here)

lemma regex_test_split:
  "regex_test p ws s \<Longrightarrow> \<exists>pre suf. s = pre @ suf \<and> match_here p ws suf"
proof (induction s)
  case Nil
  then show ?case by simp
next
  case (Cons x xs)
  show ?case
  proof (cases "match_here p ws (x # xs)")
    case True
    then have "x # xs = [] @ (x # xs) \<and> match_here p ws (x # xs)" by simp
    then show ?thesis by blast
  next
    case False
    with Cons.prems have "regex_test p ws xs" by simp
    then obtain pre suf where "xs = pre @ suf" "match_here p ws suf"
      using Cons.IH by blast
    then have "x # xs = (x # pre) @ suf \<and> match_here p ws suf" by simp
    then show ?thesis by blast
  qed
qed

lemma match_two_end:
  "match_here [c1, c2] False s \<longleftrightarrow> (\<exists>a b. s = [a, b] \<and> c1 a \<and> c2 b)"
  by (cases s; cases "tl s") auto

lemma match_two_ws:
  "match_here [c1, c2] True s \<longleftrightarrow>
     (\<exists>a b r. s = a # b # r \<and> c1 a \<and> c2 b \<and> list_all isWhiteSpace r)"
  by (cases s; cases "tl s") auto

lemma match_one_ws:
  "match_here [c1] True s \<longleftrightarrow> (\<exists>a r. s = a # r \<and> c1 a \<and> list_all isWhiteSpace r)"
  by (cases s) auto


lemma regex_two_end_last:
  "regex_test [c1, c2] False s \<Longrightarrow> s \<noteq> [] \<and> c2 (last s)"
proof -
  assume "regex_test [c1, c2] False s"
  then obtain pre suf where s: "s = pre @ suf" and m: "match_here [c1, c2] False suf"
    using regex_test_split by blast
  from m obtain a b where "suf = [a, b]" "c2 b"
    by (auto simp: match_two_end)
  with s show ?thesis by simp
qed

lemma regex_two_ws_last:
  assumes "regex_test [c1, c2] True s" and "\<not> isWhiteSpace (last s)"
  shows "s \<noteq> [] \<and> c2 (last s)"
proof -
  from assms(1) obtain pre suf where s: "s = pre @ suf" and m: "match_here [c1, c2] True suf"
    using regex_test_split by blast
  from m obtain a b r where suf: "suf = a # b # r" and b: "c2 b" and r: "list_all isWhiteSpace r"
    by (auto simp: match_two_ws)
  have "r = []"
  proof (rule ccontr)
    assume "r \<noteq> []"
    then have "last s = last r" using s suf by simp
    moreover have "isWhiteSpace (last r)"
      using r \<open>r \<noteq> []\<close> by (simp add: list_all_iff)
    ultimately show False using assms(2) by simp
  qed
  with s suf b show ?thesis by simp
qed

lemma regex_one_ws_last:
  assumes "regex_test [c1] True s" and "\<not> isWhiteSpace (last s)"
  shows "s \<noteq> [] \<and> c1 (last s)"
proof -
  from assms(1) obtain pre suf where s: "s = pre @ suf" and m: "match_here [c1] True suf"
    using regex_test_split by blast
  from m obtain a r where suf: "suf = a # r" and a: "c1 a" and r: "list_all isWhiteSpace r"
    by (auto simp: match_one_ws)
  have "r = []"
  proof (rule ccontr)
    assume "r \<noteq> []"
    then have "last s = last r" using s suf by simp
    moreover have "isWhiteSpace (last r)"
      using r \<open>r \<noteq> []\<close> by (simp add: list_all_iff)
    ultimately show False using assms(2) by simp
  qed
  with s suf a show ?thesis by simp
qed

lemma endsWith_last: "endsWith s c \<longleftrightarrow> s \<noteq> [] \<and> last s = c"
  by (cases s rule: rev_cases) (simp_all add: endsWith_def)

lemma isTruncated_last_bracket:
  assumes "isTruncated t"
  shows "trim t \<noteq> [] \<and> isBracketChar (last (trim t))"
proof -
  from assms have ne: "trim t \<noteq> []"
    by (auto simp: isTruncated_def split: if_splits)
  then have ns: "\<not> isWhiteSpace (last (trim t))"
    by (rule trim_last_nonspace)
  from assms ne consider
      "regex_test [isLetter, isBracketChar] False (trim t)"
    | "regex_test [isLower, isBracketChar] False (trim t)"
    | "endsWith (trim t) lbrace \<or> endsWith (trim t) lbracket \<or>
       regex_test [isOpenChar] True (trim t)"
    | "regex_test [isLetter, isBracketChar] True (trim t)"
    by (auto simp: isTruncated_def Let_def split: if_splits)
  then have "isBracketChar (last (trim t))"
  proof cases
    case 1
    then show ?thesis using regex_two_end_last by blast
  next
    case 2
    then show ?thesis using regex_two_end_last by blast
  next
    case 3
    then show ?thesis
      using regex_one_ws_last [OF _ ns, of isOpenChar]
      by (auto simp: endsWith_last isBracketChar_def isOpenChar_def)
  next
    case 4
    then show ?thesis using regex_two_ws_last [OF _ ns] by blast
  qed
  with ne show ?thesis by simp
qed

lemma isTruncated_letter_bracket:
  assumes "trim t = pre @ [a, b]" and "isLetter a" and "isBracketChar b"
  shows "isTruncated t"
proof -
  have "match_here [isLetter, isBracketChar] False [a, b]"
    using assms(2,3) by simp
  then have "regex_test [isLetter, isBracketChar] False (trim t)"
    unfolding assms(1) by (rule regex_test_suffix)
  moreover have "t \<noteq> []" using assms(1) by (auto simp: trim_Nil)
  moreover have "trim t \<noteq> []" using assms(1) by simp
  ultimately show ?thesis by (simp add: isTruncated_def)
qed

lemma trim_open_tail:
  assumes "\<not> isWhiteSpace b" and "list_all isWhiteSpace sp"
  shows "trim (pre @ b # sp) = dropWhile isWhiteSpace (pre @ [b])"
proof -
  let ?d = "dropWhile isWhiteSpace (pre @ [b])"
  have d: "dropWhile isWhiteSpace (pre @ b # sp) = ?d @ sp"
    using assms(1) by (induction pre) auto
  have "?d \<noteq> []" using assms(1) by (induction pre) auto
  moreover have "last ?d = b" using assms(1) by (induction pre) auto
  ultimately obtain q where q: "?d = q @ [b]"
    by (metis append_butlast_last_id)
  have "dropWhile isWhiteSpace (rev sp @ b # rev q) = b # rev q"
    using assms by (simp add: dropWhile_append list_all_iff)
  then show ?thesis
    by (simp add: trim_def d q)
qed

lemma isTruncated_unclosed:
  assumes cnt: "count_char lbrace t > count_char rbrace t \<or>
                count_char lbracket t > count_char rbracket t"
    and t: "t = pre @ b # sp" and b: "isOpenChar b" and sp: "list_all isWhiteSpace sp"
  shows "isTruncated t"
proof -
  have nb: "\<not> isWhiteSpace b"
    using b bracket_chars_not_space by (auto simp: isOpenChar_def)
  let ?d = "dropWhile isWhiteSpace (pre @ [b])"
  have tr: "trim t = ?d" unfolding t using nb sp by (rule trim_open_tail)
  have "?d \<noteq> []" using nb by (induction pre) auto
  moreover have "last ?d = b" using nb by (induction pre) auto
  ultimately have e: "endsWith (trim t) b"
    by (simp add: tr endsWith_last)
  have "t \<noteq> []" using t by simp
  moreover have "trim t \<noteq> []" using e by (simp add: endsWith_last)
  moreover have "endsWith (trim t) lbrace \<or> endsWith (trim t) lbracket"
    using e b by (auto simp: isOpenChar_def)
  ultimately show ?thesis
    using cnt by (auto simp: isTruncated_def Let_def count_char_trim bracket_chars_not_space)
qed

section \<open>The recursive check against the leaves\<close>

lemma find_append:
  "find P (xs @ ys) = (case find P xs of None \<Rightarrow> find P ys | Some x \<Rightarrow> Some x)"
  by (induction xs) auto

lemma find_Some_set: "find P xs = Some x \<Longrightarrow> x \<in> set xs"
  by (induction xs) (auto split: if_splits)

lemma find_Some_holds: "find P xs = Some x \<Longrightarrow> P x"
  by (induction xs) (auto split: if_splits)

lemma validateNoTruncation_find:
  "validateNoTruncation d path =
     (case find (\<lambda>(p, s). isTruncated s) (leaves d path) of
        None \<Rightarrow> Inr () | Some (p, s) \<Rightarrow> Inl (truncationMessage p s))"
  "forEachItem items index path =
     (case find (\<lambda>(p, s). isTruncated s) (itemLeaves items index path) of
        None \<Rightarrow> Inr () | Some (p, s) \<Rightarrow> Inl (truncationMessage p s))"
  "forEachEntry entries path =
     (case find (\<lambda>(p, s). isTruncated s) (entryLeaves entries path) of
        None \<Rightarrow> Inr () | Some (p, s) \<Rightarrow> Inl (truncationMessage p s))"
  by (induction d path and items index path and entries path
      rule: validateNoTruncation_forEachItem_forEachEntry.induct)
    (auto simp: find_append split: sum.splits option.splits)

lemma validateNoTruncation_passes_iff:
  "validateNoTruncation d path = Inr () \<longleftrightarrow>
     (\<forall>(p, s) \<in> set (leaves d path). \<not> isTruncated s)"
proof (cases "find (\<lambda>(p, s). isTruncated s) (leaves d path)")
  case None
  have "validateNoTruncation d path = Inr ()"
    by (simp add: validateNoTruncation_find(1) None)
  moreover have "\<forall>(p, s) \<in> set (leaves d path). \<not> isTruncated s"
    using None by (auto simp: find_None_iff)
  ultimately show ?thesis by simp
next
  case (Some x)
  then have "x \<in> set (leaves d path)" and "case x of (p, s) \<Rightarrow> isTruncated s"
    by (rule find_Some_set, rule find_Some_holds)
  with Some show ?thesis
    by (auto simp: validateNoTruncation_find(1) split: prod.splits)
qed

section \<open>Events and results of the generator\<close>

lemma issuedPrompts_append: "issuedPrompts (a @ b) = issuedPrompts a @ issuedPrompts b"
  by (induction a rule: issuedPrompts.induct) simp_all

lemma modelCalls_issued: "modelCalls tr = length (issuedPrompts tr)"
  by (induction tr rule: issuedPrompts.induct) (simp_all add: modelCalls_def)

lemma catchBlock_returns:
  assumes "catchBlock e lg response error tr = (Inr v, tr')"
  shows "\<exists>r. response = Some r \<and> r \<noteq> [] \<and> parseJSON e r = Inr v \<and> validator e v"
  using assms
  by (auto simp: catchBlock_def Let_def split: option.splits if_splits sum.splits)

lemma catchBlock_issued:
  "issuedPrompts (snd (catchBlock e lg response error tr)) = issuedPrompts tr"
  by (auto simp: catchBlock_def Let_def issuedPrompts_append split: option.splits sum.splits)

lemma catchBlock_fallback:
  assumes "r \<noteq> []"
  shows "catchBlock e lg (Some r) (Error m) tr =
     (case parseJSON e r of
        Inr v \<Rightarrow> if validator e v then Inr v else Inl (Error m)
      | Inl x \<Rightarrow> Inl (Error m),
      tr @ (if lg then [LogError m None] else []) @ [ManualParse r] @
      (case parseJSON e r of
         Inr v \<Rightarrow> if validator e v \<and> lg then [LogResponse r] else []
       | Inl x \<Rightarrow> []))"
  using assms
  by (auto simp: catchBlock_def Let_def split: sum.splits)

lemma issuedPrompts_logs [simp]:
  "issuedPrompts (if b then [LogRequest p] else []) = []"
  "issuedPrompts (if b then [LogResponse r] else []) = []"
  "issuedPrompts (if b then [LogError m a] else []) = []"
  by simp_all

lemma generateWithSchema_issued:
  "issuedPrompts (snd (generateWithSchema e prompt deps ty tr)) = issuedPrompts tr @ [prompt]"
proof (cases "llm e (modelCalls (tr @ (if logging deps ty then [LogRequest prompt] else [])))
                (chooseSystemPrompt ty) prompt")
  case (Inl x)
  then show ?thesis
    by (simp add: generateWithSchema_def Let_def catchBlock_issued issuedPrompts_append
        del: append_assoc)
next
  case (Inr response)
  note r = this
  show ?thesis
  proof (cases "grammarParse e response")
    case (Inl m)
    with r show ?thesis
      by (simp add: generateWithSchema_def Let_def catchBlock_issued issuedPrompts_append)
  next
    case (Inr parsed)
    with r show ?thesis
      by (cases "validateNoTruncation parsed (js ''root'')")
        (simp_all add: generateWithSchema_def Let_def catchBlock_issued issuedPrompts_append)
  qed
qed

lemma generateWithSchema_valid:
  assumes "generateWithSchema e prompt deps ty tr = (Inr v, tr')"
  shows "validator e v"
proof (cases "llm e (modelCalls (tr @ (if logging deps ty then [LogRequest prompt] else [])))
                (chooseSystemPrompt ty) prompt")
  case (Inl x)
  with assms show ?thesis
    by (auto simp: generateWithSchema_def Let_def dest: catchBlock_returns)
next
  case (Inr response)
  note r = this
  show ?thesis
  proof (cases "grammarParse e response")
    case (Inl m)
    with assms r show ?thesis
      by (auto simp: generateWithSchema_def Let_def dest: catchBlock_returns)
  next
    case (Inr parsed)
    with assms r show ?thesis
      by (auto simp: generateWithSchema_def Let_def split: if_splits sum.splits
          dest: catchBlock_returns)
  qed
qed

lemma modelCalls_request [simp]:
  "modelCalls (tr @ (if b then [LogRequest p] else [])) = modelCalls tr"
  by (simp add: modelCalls_def)

lemma generateWithSchema_returns_from:
  assumes "generateWithSchema e prompt deps ty tr = (Inr v, tr')"
  shows "\<exists>response. llm e (modelCalls tr) (chooseSystemPrompt ty) prompt = Inr response \<and>
           (grammarParse e response = Inr v \<or> parseJSON e response = Inr v)"
proof (cases "llm e (modelCalls tr) (chooseSystemPrompt ty) prompt")
  case (Inl x)
  with assms show ?thesis
    by (auto simp: generateWithSchema_def Let_def dest: catchBlock_returns)
next
  case (Inr response)
  note r = this
  show ?thesis
  proof (cases "grammarParse e response")
    case (Inl m)
    with assms r show ?thesis
      by (auto simp: generateWithSchema_def Let_def dest: catchBlock_returns)
  next
    case (Inr parsed)
    with assms r show ?thesis
      by (auto simp: generateWithSchema_def Let_def split: if_splits sum.splits
          dest: catchBlock_returns)
  qed
qed

lemma filter_manual_logs [simp]:
  "filter isManualParse (if b then [LogRequest p] else []) = []"
  "filter isManualParse (if b then [LogResponse r] else []) = []"
  "filter isManualParse (if b then [LogError m a] else []) = []"
  by simp_all

section \<open>Unfolding the retry loop\<close>

lemma failed_after:
  "js ''Failed after '' @ show_nat maxAttempts @ js '' attempts: '' @ m =
   js ''Failed after 2 attempts: '' @ m"
  by (simp add: maxAttempts_def show_nat.simps js_def)

lemma retryLoop_first:
  "retryLoop e pb brp msg ctx deps ty (Suc 0) None tr =
     (case generateWithSchema e (pb msg ctx) deps ty tr of
        (Inr v, tr1) \<Rightarrow> (Inr v, tr1)
      | (Inl x, tr1) \<Rightarrow>
          retryLoop e pb brp msg ctx deps ty (Suc (Suc 0)) (Some (errorMessage x))
            (tr1 @ logAttemptError deps ty (Suc 0) (errorMessage x)))"
  by (subst retryLoop.simps)
    (simp add: maxAttempts_def Let_def split: prod.splits sum.splits)

lemma retryLoop_second:
  "retryLoop e pb brp msg ctx deps ty (Suc (Suc 0)) (Some m1) tr =
     (case generateWithSchema e (brp (pb msg ctx) (retryReason (Some m1))) deps ty tr of
        (Inr v, tr2) \<Rightarrow> (Inr v, tr2)
      | (Inl x, tr2) \<Rightarrow>
          (Inl (Error (js ''Failed after 2 attempts: '' @ errorMessage x)),
           tr2 @ logAttemptError deps ty (Suc (Suc 0)) (errorMessage x)))"
  by (subst retryLoop.simps)
    (simp add: Let_def failed_after split: prod.splits sum.splits, simp add: maxAttempts_def)

lemma generateWithRetry_unfold:
  "generateWithRetry e pb brp msg ctx deps ty tr =
     (case generateWithSchema e (pb msg ctx) deps ty tr of
        (Inr v, tr1) \<Rightarrow> (Inr v, tr1)
      | (Inl x1, tr1) \<Rightarrow>
          (case generateWithSchema e (brp (pb msg ctx) (retryReason (Some (errorMessage x1))))
                  deps ty (tr1 @ logAttemptError deps ty 1 (errorMessage x1)) of
             (Inr v, tr2) \<Rightarrow> (Inr v, tr2)
           | (Inl x2, tr2) \<Rightarrow>
               (Inl (Error (js ''Failed after 2 attempts: '' @ errorMessage x2)),
                tr2 @ logAttemptError deps ty 2 (errorMessage x2))))"
  by (simp add: generateWithRetry_def retryLoop_first retryLoop_second numeral_2_eq_2
      split: prod.splits sum.splits)

lemma issuedPrompts_attempt_log [simp]:
  "issuedPrompts (logAttemptError deps ty attempt m) = []"
  by (simp add: logAttemptError_def)

lemma generateWithRetry_issued:
  "issuedPrompts (snd (generateWithRetry e pb brp msg ctx deps ty tr)) =
     issuedPrompts tr @
     (case fst (generateWithSchema e (pb msg ctx) deps ty tr) of
        Inr v \<Rightarrow> [pb msg ctx]
      | Inl x1 \<Rightarrow> [pb msg ctx, brp (pb msg ctx) (retryReason (Some (errorMessage x1)))])"
proof -
  obtain r1 tr1 where run1: "generateWithSchema e (pb msg ctx) deps ty tr = (r1, tr1)"
    by (cases "generateWithSchema e (pb msg ctx) deps ty tr")
  have i1: "issuedPrompts tr1 = issuedPrompts tr @ [pb msg ctx]"
    using generateWithSchema_issued [of e "pb msg ctx" deps ty tr] run1 by simp
  show ?thesis
  proof (cases r1)
    case (Inr v)
    with run1 i1 show ?thesis
      by (simp add: generateWithRetry_unfold)
  next
    case (Inl x1)
    let ?p2 = "brp (pb msg ctx) (retryReason (Some (errorMessage x1)))"
    let ?tr1 = "tr1 @ logAttemptError deps ty 1 (errorMessage x1)"
    obtain r2 tr2 where run2: "generateWithSchema e ?p2 deps ty ?tr1 = (r2, tr2)"
      by (cases "generateWithSchema e ?p2 deps ty ?tr1")
    have i2: "issuedPrompts tr2 = issuedPrompts ?tr1 @ [?p2]"
      using generateWithSchema_issued [of e ?p2 deps ty ?tr1] run2 by simp
    from Inl run1 run2 i1 i2 show ?thesis
      by (cases r2) (simp_all add: generateWithRetry_unfold issuedPrompts_append)
  qed
qed

lemma generateWithRetry_throws:
  assumes "fst (generateWithRetry e pb brp msg ctx deps ty tr) = Inl x"
  shows "\<exists>x1 x2. fst (generateWithSchema e (pb msg ctx) deps ty tr) = Inl x1 \<and>
           x = Error (js ''Failed after 2 attempts: '' @ errorMessage x2)"
  using assms
  by (auto simp: generateWithRetry_unfold split: prod.splits sum.splits)

text \<open>The two failing attempts of the example run.\<close>

lemma failTwice_attempt1:
  "fst (generateWithSchema (exampleEnv answersFailTwice) (examplePromptBuilder exampleMessage None)
          exampleDeps (Some Intent) []) =
     Inl (Error (js ''Validation failed: /primary must NOT have fewer than 1 characters''))"
  by code_simp

lemma failTwice_attempt2:
  "fst (generateWithSchema (exampleEnv answersFailTwice)
          (exampleRetryPrompt (examplePromptBuilder exampleMessage None)
             (retryReason (Some (errorMessage (Error
                (js ''Validation failed: /primary must NOT have fewer than 1 characters''))))))
          exampleDeps (Some Intent)
          (snd (generateWithSchema (exampleEnv answersFailTwice)
                  (examplePromptBuilder exampleMessage None) exampleDeps (Some Intent) []) @
           logAttemptError exampleDeps (Some Intent) 1
             (errorMessage (Error
                (js ''Validation failed: /primary must NOT have fewer than 1 characters''))))) =
     Inl (Error (js ''Unexpected token in JSON''))"
  by code_simp

section \<open>Claims about the truncation detector and the recursive check\<close>

text \<open>
  C10. An empty string and a string of white space only are never flagged, and a value all
  of whose string leaves are such strings passes the recursive check.
\<close>

theorem isTruncated_blank:
  "(list_all isWhiteSpace t \<longrightarrow> \<not> isTruncated t) \<and>
   ((\<forall>(p, s) \<in> set (leaves d path). list_all isWhiteSpace s) \<longrightarrow>
      validateNoTruncation d path = Inr ())"
proof -
  have blank: "\<not> isTruncated s" if "list_all isWhiteSpace s" for s
    using that by (simp add: isTruncated_def trim_all_space)
  then show ?thesis
    by (auto simp: validateNoTruncation_passes_iff)
qed

theorem isTruncated_blank_witness:
  "\<not> isTruncated [0x20, 0x09, 0x3000] \<and>
   validateNoTruncation blankStructure (js ''root'') = Inr ()"
proof -
  have h1: "list_all isWhiteSpace [0x20, 0x09, 0x3000]"
    by code_simp
  have h2: "\<forall>(p, s) \<in> set (leaves blankStructure (js ''root'')). list_all isWhiteSpace s"
    by code_simp
  from isTruncated_blank [of "[0x20, 0x09, 0x3000]" blankStructure "js ''root''"] h1 h2
  show ?thesis by blast
qed



text \<open>
  C7. A text with more opening braces than closing ones, or more opening brackets than
  closing ones, that ends in an opening brace or bracket followed by white space at most,
  is flagged.
\<close>

theorem isTruncated_unclosed_structure:
  assumes "count_char lbrace t > count_char rbrace t \<or>
           count_char lbracket t > count_char rbracket t"
    and "t = pre @ b # sp" and "isOpenChar b" and "list_all isWhiteSpace sp"
  shows "isTruncated t"
  using assms by (rule isTruncated_unclosed)

theorem isTruncated_unclosed_structure_witness:
  "isTruncated (js ''The options are: [ '')"
proof -
  have h1: "count_char lbrace (js ''The options are: [ '') >
              count_char rbrace (js ''The options are: [ '') \<or>
            count_char lbracket (js ''The options are: [ '') >
              count_char rbracket (js ''The options are: [ '')"
    by code_simp
  have h2: "js ''The options are: [ '' = js ''The options are: '' @ lbracket # js '' ''"
    by code_simp
  have h3: "isOpenChar lbracket"
    by code_simp
  have h4: "list_all isWhiteSpace (js '' '')"
    by code_simp
  show ?thesis
    using isTruncated_unclosed_structure [OF h1 h2 h3 h4] .
qed

text \<open>
  C3, as amended. A text whose trimmed form ends in an ASCII letter (\<^verbatim>\<open>a-z\<close>, \<^verbatim>\<open>A-Z\<close>)
  followed by one of the characters \<^verbatim>\<open>{\<close>, \<^verbatim>\<open>[\<close>, \<^verbatim>\<open>]\<close> is flagged; a text whose trimmed form
  ends in any other character than these three, as every sentence closed by a full stop,
  a question mark or an exclamation mark does, is not flagged.
\<close>

theorem isTruncated_letter_then_bracket:
  "(trim t = pre @ [a, b] \<and> isLetter a \<and> isBracketChar b \<longrightarrow> isTruncated t) \<and>
   (trim u \<noteq> [] \<and> \<not> isBracketChar (last (trim u)) \<longrightarrow> \<not> isTruncated u)"
  using isTruncated_letter_bracket [of t pre a b] isTruncated_last_bracket [of u]
  by blast

theorem isTruncated_letter_then_bracket_witness:
  "isTruncated (js '' This version is making{ '') \<and>
   \<not> isTruncated (js ''Can you send the document?'')"
proof -
  have h1: "trim (js '' This version is making{ '') =
              js ''This version is makin'' @ [0x67, lbrace] \<and>
            isLetter 0x67 \<and> isBracketChar lbrace"
    by code_simp
  have h2: "trim (js ''Can you send the document?'') \<noteq> [] \<and>
            \<not> isBracketChar (last (trim (js ''Can you send the document?'')))"
    by code_simp
  from isTruncated_letter_then_bracket
         [of "js '' This version is making{ ''" "js ''This version is makin''" "0x67" lbrace
             "js ''Can you send the document?''"] h1 h2
  show ?thesis by blast
qed

text \<open>
  C3 as stated fails for word characters that are no letters: a text ending in a digit and
  a closing bracket is not flagged.
\<close>

theorem isTruncated_word_character_counterexample:
  "trim (js ''as shown in [1] '') = js ''as shown in ['' @ [0x31, rbracket] \<and>
   specWordChar 0x31 \<and> isBracketChar rbracket \<and>
   \<not> isTruncated (js ''as shown in [1] '')"
  by code_simp

section \<open>Claims about the constrained generator\<close>

text \<open>
  C9. A value that \<open>generateWithSchema\<close> returns satisfies the validator, whether it comes
  from \<open>grammar.parse\<close> or from the fallback \<open>parseJSON\<close>; it is one of these two parses of
  the model's response.
\<close>

theorem generateWithSchema_returns_validated:
  assumes "generateWithSchema e prompt deps ty tr = (Inr v, tr')"
  shows "validator e v \<and>
         (\<exists>response. llm e (modelCalls tr) (chooseSystemPrompt ty) prompt = Inr response \<and>
            (grammarParse e response = Inr v \<or> parseJSON e response = Inr v))"
  using assms generateWithSchema_valid generateWithSchema_returns_from by blast

theorem generateWithSchema_returns_validated_witness:
  "fst (generateWithSchema (exampleEnv answersComplete) examplePrompt exampleDeps
          (Some Intent) []) = Inr completeValue \<and>
   fst (generateWithSchema (exampleEnv answersFenced) examplePrompt exampleDeps
          (Some Intent) []) = Inr completeValue \<and>
   validator (exampleEnv answersComplete) completeValue \<and>
   validator (exampleEnv answersFenced) completeValue"
proof -
  let ?direct = "generateWithSchema (exampleEnv answersComplete) examplePrompt exampleDeps
                   (Some Intent) []"
  let ?fallback = "generateWithSchema (exampleEnv answersFenced) examplePrompt exampleDeps
                     (Some Intent) []"
  have h1: "fst ?direct = Inr completeValue"
    by code_simp
  have h2: "fst ?fallback = Inr completeValue"
    by code_simp
  from h1 have d: "?direct = (Inr completeValue, snd ?direct)"
    by (simp add: prod_eq_iff)
  from h2 have f: "?fallback = (Inr completeValue, snd ?fallback)"
    by (simp add: prod_eq_iff)
  from generateWithSchema_returns_validated [OF d]
       generateWithSchema_returns_validated [OF f] h1 h2
  show ?thesis by blast
qed

text \<open>
  C1. The model answers \<^verbatim>\<open>{"primary":"The person is express{"}\<close>. The grammar parse and the
  validator accept it, the recursive check throws, and that error lands in the \<open>catch\<close>
  block of the same function: the fallback parse reads the same text, the validator accepts
  it again, and the value with the cut-off field is returned, on the first attempt of
  \<open>generateWithRetry\<close> too.
\<close>

theorem generateWithSchema_returns_truncated:
  "generateWithSchema (exampleEnv answersTruncated) examplePrompt exampleDeps (Some Intent) [] =
     (Inr truncatedValue,
      [LogRequest examplePrompt,
       ModelCall DefaultSystemPrompt examplePrompt,
       LogResponse truncatedResponse,
       GrammarParse truncatedResponse,
       LogError (js ''Truncation detected: '' @
                 truncationMessage (js ''root.primary'') (js ''The person is express{'')) None,
       LogError (js ''Response appears truncated: '' @
                 truncationMessage (js ''root.primary'') (js ''The person is express{'')) None,
       ManualParse truncatedResponse,
       LogResponse truncatedResponse]) \<and>
   isTruncated (js ''The person is express{'') \<and>
   validateNoTruncation truncatedValue (js ''root'') =
     Inl (truncationMessage (js ''root.primary'') (js ''The person is express{'')) \<and>
   fst (generateWithRetry (exampleEnv answersTruncated) examplePromptBuilder exampleRetryPrompt
          exampleMessage None exampleDeps (Some Intent) []) = Inr truncatedValue"
  by code_simp

text \<open>
  C5. When the model has answered a non-empty text and \<open>grammar.parse\<close> throws, \<open>parseJSON\<close>
  is called once, on that text; its value is returned if the validator accepts it, and
  otherwise, or if it throws, the error of \<open>grammar.parse\<close> is thrown.
\<close>

theorem generateWithSchema_fallback_once:
  assumes "llm e (modelCalls tr) (chooseSystemPrompt ty) prompt = Inr response"
    and "response \<noteq> []"
    and "grammarParse e response = Inl m"
  shows "fst (generateWithSchema e prompt deps ty tr) =
           (case parseJSON e response of
              Inr v \<Rightarrow> if validator e v then Inr v else Inl (Error m)
            | Inl x \<Rightarrow> Inl (Error m)) \<and>
         filter isManualParse (snd (generateWithSchema e prompt deps ty tr)) =
           filter isManualParse tr @ [ManualParse response]"
  using assms
  by (cases "parseJSON e response")
    (simp_all add: generateWithSchema_def Let_def catchBlock_fallback)

theorem generateWithSchema_fallback_once_witness:
  "fst (generateWithSchema (exampleEnv answersFenced) examplePrompt exampleDeps (Some Intent) [])
     = Inr completeValue \<and>
   filter isManualParse
     (snd (generateWithSchema (exampleEnv answersFenced) examplePrompt exampleDeps
             (Some Intent) [])) = [ManualParse fencedResponse]"
proof -
  have h1: "llm (exampleEnv answersFenced) (modelCalls []) (chooseSystemPrompt (Some Intent))
              examplePrompt = Inr fencedResponse"
    by code_simp
  have h2: "fencedResponse \<noteq> []"
    by code_simp
  have h3: "grammarParse (exampleEnv answersFenced) fencedResponse =
              Inl (js ''Unexpected token in JSON'')"
    by code_simp
  have h4: "parseJSON (exampleEnv answersFenced) fencedResponse = Inr completeValue"
    by code_simp
  have h5: "validator (exampleEnv answersFenced) completeValue"
    by code_simp
  from generateWithSchema_fallback_once [OF h1 h2 h3, of exampleDeps] h4 h5
  show ?thesis by simp
qed

section \<open>Claims about the retry controller\<close>

text \<open>
  C2. \<open>generateWithRetry\<close> calls the model at most twice, whatever the failures are. When
  it throws, it has called the model exactly twice and throws the error
  \<^verbatim>\<open>Failed after 2 attempts: ...\<close>; and when both attempts fail it throws after the second,
  with no third call. The function is total: it always returns or throws.
\<close>

theorem generateWithRetry_at_most_two_attempts:
  "modelCalls (snd (generateWithRetry e pb brp msg ctx deps ty tr)) \<le> modelCalls tr + 2 \<and>
   (\<forall>x. fst (generateWithRetry e pb brp msg ctx deps ty tr) = Inl x \<longrightarrow>
      modelCalls (snd (generateWithRetry e pb brp msg ctx deps ty tr)) = modelCalls tr + 2 \<and>
      (\<exists>m. x = Error (js ''Failed after 2 attempts: '' @ m))) \<and>
   (\<forall>x1 tr1 x2 tr2.
      generateWithSchema e (pb msg ctx) deps ty tr = (Inl x1, tr1) \<and>
      generateWithSchema e (brp (pb msg ctx) (retryReason (Some (errorMessage x1)))) deps ty
        (tr1 @ logAttemptError deps ty 1 (errorMessage x1)) = (Inl x2, tr2) \<longrightarrow>
      (\<exists>x. fst (generateWithRetry e pb brp msg ctx deps ty tr) = Inl x) \<and>
      modelCalls (snd (generateWithRetry e pb brp msg ctx deps ty tr)) = modelCalls tr + 2)"
proof -
  let ?run = "generateWithRetry e pb brp msg ctx deps ty tr"
  have calls: "modelCalls (snd ?run) = modelCalls tr +
      (case fst (generateWithSchema e (pb msg ctx) deps ty tr) of Inr v \<Rightarrow> 1 | Inl x1 \<Rightarrow> 2)"
    by (simp add: modelCalls_issued generateWithRetry_issued split: sum.splits)
  have a: "modelCalls (snd ?run) \<le> modelCalls tr + 2"
    unfolding calls by (simp split: sum.splits)
  have b: "modelCalls (snd ?run) = modelCalls tr + 2 \<and>
           (\<exists>m. x = Error (js ''Failed after 2 attempts: '' @ m))"
    if "fst ?run = Inl x" for x
  proof -
    from generateWithRetry_throws [OF that] obtain x1 x2
      where "fst (generateWithSchema e (pb msg ctx) deps ty tr) = Inl x1"
        and "x = Error (js ''Failed after 2 attempts: '' @ errorMessage x2)"
      by blast
    then show ?thesis unfolding calls by auto
  qed
  have c: "(\<exists>x. fst ?run = Inl x) \<and> modelCalls (snd ?run) = modelCalls tr + 2"
    if "generateWithSchema e (pb msg ctx) deps ty tr = (Inl x1, tr1)"
      and "generateWithSchema e (brp (pb msg ctx) (retryReason (Some (errorMessage x1)))) deps ty
             (tr1 @ logAttemptError deps ty 1 (errorMessage x1)) = (Inl x2, tr2)"
    for x1 tr1 x2 tr2
    using that unfolding calls by (simp add: generateWithRetry_unfold)
  from a b c show ?thesis by blast
qed

theorem generateWithRetry_at_most_two_attempts_witness:
  "fst (generateWithRetry (exampleEnv answersFailTwice) examplePromptBuilder exampleRetryPrompt
          exampleMessage None exampleDeps (Some Intent) []) =
     Inl (Error (js ''Failed after 2 attempts: Unexpected token in JSON'')) \<and>
   modelCalls (snd (generateWithRetry (exampleEnv answersFailTwice) examplePromptBuilder
                      exampleRetryPrompt exampleMessage None exampleDeps (Some Intent) [])) = 2"
proof -
  let ?run = "generateWithRetry (exampleEnv answersFailTwice) examplePromptBuilder
                exampleRetryPrompt exampleMessage None exampleDeps (Some Intent) []"
  have h: "fst ?run = Inl (Error (js ''Failed after 2 attempts: Unexpected token in JSON''))"
    by code_simp
  have "modelCalls ([] :: event list) = 0"
    by (simp add: modelCalls_def)
  with generateWithRetry_at_most_two_attempts
         [of "exampleEnv answersFailTwice" examplePromptBuilder exampleRetryPrompt
             exampleMessage None exampleDeps "Some Intent" "[]"] h
  show ?thesis by simp
qed

text \<open>
  C4, as amended. When both attempts fail, the error thrown at the end is
  \<^verbatim>\<open>Failed after 2 attempts: \<close> followed by the message of the error of attempt 2. The reason
  of attempt 1 has gone into the prompt of attempt 2 and is no part of the final error.
\<close>

theorem generateWithRetry_final_error:
  assumes "generateWithSchema e (pb msg ctx) deps ty tr = (Inl x1, tr1)"
    and "generateWithSchema e (brp (pb msg ctx) (retryReason (Some (errorMessage x1)))) deps ty
           (tr1 @ logAttemptError deps ty 1 (errorMessage x1)) = (Inl x2, tr2)"
  shows "fst (generateWithRetry e pb brp msg ctx deps ty tr) =
           Inl (Error (js ''Failed after 2 attempts: '' @ errorMessage x2))"
  using assms by (simp add: generateWithRetry_unfold)

theorem generateWithRetry_final_error_witness:
  "fst (generateWithRetry (exampleEnv answersFailTwice) examplePromptBuilder exampleRetryPrompt
          exampleMessage None exampleDeps (Some Intent) []) =
     Inl (Error (js ''Failed after 2 attempts: '' @ js ''Unexpected token in JSON''))"
proof -
  let ?e = "exampleEnv answersFailTwice"
  let ?p = "examplePromptBuilder exampleMessage None"
  let ?x1 = "Error (js ''Validation failed: /primary must NOT have fewer than 1 characters'')"
  let ?run1 = "generateWithSchema ?e ?p exampleDeps (Some Intent) []"
  let ?run2 = "generateWithSchema ?e (exampleRetryPrompt ?p (retryReason (Some (errorMessage ?x1))))
                 exampleDeps (Some Intent)
                 (snd ?run1 @ logAttemptError exampleDeps (Some Intent) 1 (errorMessage ?x1))"
  have h1: "?run1 = (Inl ?x1, snd ?run1)"
    using failTwice_attempt1 by (simp add: prod_eq_iff)
  have h2: "?run2 = (Inl (Error (js ''Unexpected token in JSON'')), snd ?run2)"
    using failTwice_attempt2 by (simp add: prod_eq_iff)
  from generateWithRetry_final_error
         [where pb = examplePromptBuilder and msg = exampleMessage and ctx = None
            and brp = exampleRetryPrompt, OF h1 h2]
  show ?thesis by simp
qed

text \<open>
  C4 as stated fails: attempt 1 fails on the validator, attempt 2 on both parsers, and the
  final message does not contain the reason of attempt 1.
\<close>

theorem generateWithRetry_both_reasons_counterexample:
  "fst (generateWithSchema (exampleEnv answersFailTwice) (examplePromptBuilder exampleMessage None)
          exampleDeps (Some Intent) []) =
     Inl (Error (js ''Validation failed: /primary must NOT have fewer than 1 characters'')) \<and>
   fst (generateWithRetry (exampleEnv answersFailTwice) examplePromptBuilder exampleRetryPrompt
          exampleMessage None exampleDeps (Some Intent) []) =
     Inl (Error (js ''Failed after 2 attempts: Unexpected token in JSON'')) \<and>
   \<not> sublist (js ''Validation failed: /primary must NOT have fewer than 1 characters'')
       (js ''Failed after 2 attempts: Unexpected token in JSON'')"
  by code_simp

text \<open>
  C8. The first model call gets the prompt of the prompt builder on the message and the
  context. A second call is made only if the first attempt throws, and its prompt is
  \<open>buildRetryPrompt\<close> of that same base prompt and of the reason of the error of attempt 1:
  its message, for which the text \<^verbatim>\<open>Unknown error\<close> stands in when the message is empty.
\<close>

theorem generateWithRetry_prompts:
  "issuedPrompts (snd (generateWithRetry e pb brp msg ctx deps ty tr)) =
     issuedPrompts tr @
     (case fst (generateWithSchema e (pb msg ctx) deps ty tr) of
        Inr v \<Rightarrow> [pb msg ctx]
      | Inl x1 \<Rightarrow> [pb msg ctx, brp (pb msg ctx) (retryReason (Some (errorMessage x1)))]) \<and>
   (m \<noteq> [] \<longrightarrow> retryReason (Some m) = m)"
  by (simp add: generateWithRetry_issued retryReason_def)

theorem generateWithRetry_prompts_witness:
  "issuedPrompts (snd (generateWithRetry (exampleEnv answersRetrySucceeds) examplePromptBuilder
                         exampleRetryPrompt exampleMessage None exampleDeps (Some Intent) [])) =
     [examplePromptBuilder exampleMessage None,
      exampleRetryPrompt (examplePromptBuilder exampleMessage None)
        (js ''Validation failed: /primary must NOT have fewer than 1 characters'')]"
proof -
  let ?m = "js ''Validation failed: /primary must NOT have fewer than 1 characters''"
  have h1: "fst (generateWithSchema (exampleEnv answersRetrySucceeds)
                   (examplePromptBuilder exampleMessage None) exampleDeps (Some Intent) []) =
              Inl (Error ?m)"
    by code_simp
  have h2: "?m \<noteq> []"
    by code_simp
  from generateWithRetry_prompts
         [of "exampleEnv answersRetrySucceeds" examplePromptBuilder exampleRetryPrompt
             exampleMessage None exampleDeps "Some Intent" "[]" ?m] h1 h2
  show ?thesis by simp
qed

end
